theory Spec2Isabelle
  imports Main
begin

section \<open>Python string primitives used by the program\<close>

text \<open>
  A Python \<open>str\<close> is modelled as a \<open>string\<close>: one \<open>char\<close> of the model stands for
  one character of the Python string. The functions below follow the documented
  behaviour of the \<open>str\<close> methods the program calls.
\<close>

abbreviation LF :: char where "LF \<equiv> CHR 0x0A"
abbreviation TAB :: char where "TAB \<equiv> CHR 0x09"
abbreviation DQ :: char where "DQ \<equiv> CHR 0x22"
abbreviation SQ :: char where "SQ \<equiv> CHR 0x27"

text \<open>\<open>s.strip(chars)\<close>: leading and trailing characters that occur in \<open>chars\<close> are removed.\<close>

definition str_strip :: "'a list \<Rightarrow> 'a list \<Rightarrow> 'a list" where
  "str_strip s chars =
     rev (dropWhile (\<lambda>c. c \<in> set chars) (rev (dropWhile (\<lambda>c. c \<in> set chars) s)))"

text \<open>
  \<open>str.isspace\<close> on one character, for the characters a \<open>char\<close> can hold: the ASCII
  controls 9 to 13 and 28 to 31, the space, and the Latin-1 characters 0x85 and 0xA0.
\<close>

definition isspace :: "char \<Rightarrow> bool" where
  "isspace c = (of_char c \<in> {9, 10, 11, 12, 13, 28, 29, 30, 31, 32, 133, 160 :: nat})"

text \<open>\<open>s.strip()\<close> with no argument removes leading and trailing whitespace.\<close>

definition str_strip_ws :: "string \<Rightarrow> string" where
  "str_strip_ws s = rev (dropWhile isspace (rev (dropWhile isspace s)))"

text \<open>
  \<open>s.split(sep)\<close> for a one-character separator: the pieces between the separators,
  empty pieces included; the result is never empty.
\<close>

fun str_split :: "'a list \<Rightarrow> 'a \<Rightarrow> 'a list list" where
  "str_split [] sep = [[]]"
| "str_split (c # cs) sep =
     (if c = sep then [] # str_split cs sep
      else (case str_split cs sep of
              [] \<Rightarrow> [[c]]
            | p # ps \<Rightarrow> (c # p) # ps))"

text \<open>\<open>sep.join(xs)\<close>.\<close>

fun str_join :: "'a list \<Rightarrow> 'a list list \<Rightarrow> 'a list" where
  "str_join sep [] = []"
| "str_join sep [x] = x"
| "str_join sep (x # y # ys) = x @ sep @ str_join sep (y # ys)"

text \<open>\<open>s.startswith(p)\<close> and \<open>s.endswith(p)\<close>.\<close>

definition str_startswith :: "'a list \<Rightarrow> 'a list \<Rightarrow> bool" where
  "str_startswith s p = (take (length p) s = p)"

definition str_endswith :: "'a list \<Rightarrow> 'a list \<Rightarrow> bool" where
  "str_endswith s p = (length p \<le> length s \<and> drop (length s - length p) s = p)"

text \<open>
  \<open>s.replace(old, new)\<close>: the string is scanned from the left; where \<open>old\<close> starts, \<open>new\<close>
  is emitted and the scan resumes after that occurrence, so the occurrences replaced
  do not overlap. With an empty \<open>old\<close>, Python inserts \<open>new\<close> before every character
  and at the end.
\<close>

function replace_scan :: "'a list \<Rightarrow> 'a list \<Rightarrow> 'a list \<Rightarrow> 'a list" where
  "replace_scan [] old new = []"
| "replace_scan (c # cs) old new =
     (if old \<noteq> [] \<and> str_startswith (c # cs) old
      then new @ replace_scan (drop (length old) (c # cs)) old new
      else c # replace_scan cs old new)"
  by pat_completeness auto
termination
  by (relation "measure (\<lambda>(s, old, new). length s)") auto

definition str_replace :: "'a list \<Rightarrow> 'a list \<Rightarrow> 'a list \<Rightarrow> 'a list" where
  "str_replace s old new =
     (if old = [] then new @ concat (map (\<lambda>c. c # new) s)
      else replace_scan s old new)"

text \<open>\<open>xs[:n]\<close> for a Python integer \<open>n\<close>: a negative \<open>n\<close> counts from the end.\<close>

definition slice_to :: "'a list \<Rightarrow> int \<Rightarrow> 'a list" where
  "slice_to xs n =
     (if 0 \<le> n then take (nat n) xs else take (length xs - nat (- n)) xs)"

section \<open>Exceptions\<close>

text \<open>
  Every \<open>raise\<close> of the program is a value of \<open>error\<close>. The program raises
  \<open>RuntimeError\<close> in three situations, told apart here by the message; \<open>IndexError\<close>
  is what \<open>data['choices'][0]\<close> raises on an empty list.
\<close>

datatype query = Romanization | Translation | SampleSentences | IntuitiveExplanation

datatype error =
    RuntimeError_response query
      \<comment> \<open>\<open>response.status != 200\<close> in one of the four queries\<close>
  | RuntimeError_output_format
      \<comment> \<open>\<open>to_df_row\<close> or \<open>write_csv_list\<close> called for a format it does not serve\<close>
  | RuntimeError_word_mismatch string string
      \<comment> \<open>input word and search result word do not match\<close>
  | ValueError_extension string string
      \<comment> \<open>the output file does not end in the extension its format requires\<close>
  | IndexError

section \<open>translation\_utils.py\<close>

datatype OutputFormat = SHEETS | ANKI | EXCEL

record OutputGroup =
  output_file :: string
  output_format :: OutputFormat

record ExampleSentence =
  foreign_lang :: string
  english :: string

record SearchResult =
  foreign_lang_word :: string
  romanization :: "string option"
  english_def :: string
  example_sentences :: "ExampleSentence list"
  explanation :: string

text \<open>The body of the loop of \<open>format_example_sentences\<close>, for one sentence.\<close>

definition format_sentence :: "string \<Rightarrow> OutputFormat \<Rightarrow> ExampleSentence \<Rightarrow> ExampleSentence" where
  "format_sentence word fmt sentence =
     (let foreign_lang_example =
            (if fmt \<in> {EXCEL, SHEETS}
             then str_replace (foreign_lang sentence) word (''**'' @ word @ ''**'')
             else str_replace (foreign_lang sentence) word (''<b>**'' @ word @ ''**</b>''));
          foreign_lang_example =
            (if fmt = EXCEL
             then [DQ] @ str_replace foreign_lang_example [DQ] [DQ, DQ] @ [DQ]
             else foreign_lang_example)
      in sentence\<lparr>foreign_lang := foreign_lang_example\<rparr>)"

definition format_example_sentences :: "SearchResult \<Rightarrow> OutputFormat \<Rightarrow> SearchResult" where
  "format_example_sentences search_result fmt =
     search_result\<lparr>example_sentences :=
       map (format_sentence (SearchResult.foreign_lang_word search_result) fmt)
           (example_sentences search_result)\<rparr>"

record FlashCard =
  foreign_lang_word :: string
  search_result :: SearchResult
  use_romanization :: bool
  output_format :: OutputFormat

text \<open>
  A cell is what the program hands to the writer: a string, or \<open>None\<close> for a missing
  romanization. A data-frame row is the list of its named columns; a csv row is the
  list passed to \<open>writer.writerow\<close>; the csv writer is the list of rows written so far.
\<close>

type_synonym cell = "string option"
type_synonym df_row = "(string \<times> cell) list"
type_synonym csv_row = "cell list"

definition sentence_lines :: "string \<Rightarrow> ExampleSentence list \<Rightarrow> string list" where
  "sentence_lines new_line ss = map (\<lambda>s. foreign_lang s @ new_line @ english s) ss"

definition to_df_row :: "FlashCard \<Rightarrow> error + df_row" where
  "to_df_row self =
     (if FlashCard.output_format self \<noteq> EXCEL then Inl RuntimeError_output_format
      else if FlashCard.foreign_lang_word self
                \<noteq> SearchResult.foreign_lang_word (search_result self)
      then Inl (RuntimeError_word_mismatch (FlashCard.foreign_lang_word self)
                  (SearchResult.foreign_lang_word (search_result self)))
      else
        (let new_line = [LF];
             sentences = sentence_lines new_line (example_sentences (search_result self))
         in if use_romanization self
            then Inr [(''Word'', Some (FlashCard.foreign_lang_word self)),
                      (''Romanization'', romanization (search_result self)),
                      (''Translation'', Some (english_def (search_result self))),
                      (''Example Sentences'', Some (str_join (new_line @ new_line) sentences)),
                      (''Explanation'', Some (explanation (search_result self)))]
            else Inr [(''Word'', Some (FlashCard.foreign_lang_word self)),
                      (''Translation'', Some (english_def (search_result self))),
                      (''Example Sentences'', Some (str_join (new_line @ new_line) sentences)),
                      (''Explanation'', Some (explanation (search_result self)))]))"

definition write_csv_list :: "FlashCard \<Rightarrow> csv_row list \<Rightarrow> (error + unit) \<times> csv_row list" where
  "write_csv_list self writer =
     (if FlashCard.output_format self \<notin> {SHEETS, ANKI}
      then (Inl RuntimeError_output_format, writer)
      else if FlashCard.foreign_lang_word self
                \<noteq> SearchResult.foreign_lang_word (search_result self)
      then (Inl (RuntimeError_word_mismatch (FlashCard.foreign_lang_word self)
                   (SearchResult.foreign_lang_word (search_result self))), writer)
      else
        (let new_line = (if FlashCard.output_format self = ANKI then LF # ''<br>'' else [LF]);
             sentences = sentence_lines new_line (example_sentences (search_result self))
         in if use_romanization self
            then (Inr (), writer @ [[Some (FlashCard.foreign_lang_word self),
                                     romanization (search_result self),
                                     Some (english_def (search_result self)),
                                     Some (str_join (new_line @ new_line) sentences),
                                     Some (explanation (search_result self))]])
            else (Inr (), writer @ [[Some (FlashCard.foreign_lang_word self),
                                     Some (english_def (search_result self)),
                                     Some (str_join (new_line @ new_line) sentences),
                                     Some (explanation (search_result self))]])))"

section \<open>openai\_generator.py\<close>

definition STRIP_CHARACTERS :: string where
  "STRIP_CHARACTERS = [CHR '' '', LF, TAB, SQ, DQ] @ ''.;:!?''"

text \<open>
  The remote model is an input of the program: what \<open>session.post\<close> and
  \<open>response.json()\<close> hand back is a status, the token count
  \<open>data['usage']['total_tokens']\<close> and the \<open>message.content\<close> of every entry of
  \<open>data['choices']\<close>.
\<close>

record response =
  status :: int
  total_tokens :: int
  choices :: "string list"

record OpenAIGenerator =
  tokens :: "int list"
  language :: string

text \<open>
  The part shared by the three single-answer queries: the status check, the append
  to \<open>self.tokens\<close>, the first choice stripped of spaces and newlines. A query returns
  its result together with the generator as the call leaves it.
\<close>

definition first_choice :: "query \<Rightarrow> OpenAIGenerator \<Rightarrow> response \<Rightarrow> (error + string) \<times> OpenAIGenerator" where
  "first_choice q self r =
     (if status r \<noteq> 200 then (Inl (RuntimeError_response q), self)
      else
        (let self' = self\<lparr>tokens := tokens self @ [total_tokens r]\<rparr>
         in case choices r of
              [] \<Rightarrow> (Inl IndexError, self')
            | content # _ \<Rightarrow> (Inr (str_strip content [CHR '' '', LF]), self')))"

definition query_romanization :: "OpenAIGenerator \<Rightarrow> string \<Rightarrow> response \<Rightarrow> (error + string) \<times> OpenAIGenerator" where
  "query_romanization self word r = first_choice Romanization self r"



text \<open>
  The non-blank segments of one completion:
  \<open>[s.strip() for s in sentence.split('\n') if s.strip()]\<close>.
\<close>

definition segments :: "string \<Rightarrow> string list" where
  "segments sentence =
     map str_strip_ws (filter (\<lambda>s. str_strip_ws s \<noteq> []) (str_split sentence LF))"

text \<open>
  The loop over the completions, on its two variables \<open>example_sentences\<close> (here
  \<open>examples\<close>) and \<open>prev_sentences\<close>. \<open>add_sentence\<close> is the body of the loop: a
  completion whose segments are not exactly two is skipped, and so is one whose
  foreign-language segment was seen before.
\<close>

definition add_sentence ::
  "string \<Rightarrow> ExampleSentence list \<times> string set \<Rightarrow> ExampleSentence list \<times> string set" where
  "add_sentence sentence st =
     (case st of (examples, prev_sentences) \<Rightarrow>
        (case segments sentence of
           [foreign_lang_example, english_line] \<Rightarrow>
             (if foreign_lang_example \<in> prev_sentences then (examples, prev_sentences)
              else (examples @ [\<lparr>foreign_lang = foreign_lang_example, english = english_line\<rparr>],
                    insert foreign_lang_example prev_sentences))
         | _ \<Rightarrow> (examples, prev_sentences)))"

fun collect_sentences ::
  "string list \<Rightarrow> ExampleSentence list \<times> string set \<Rightarrow> ExampleSentence list \<times> string set" where
  "collect_sentences [] st = st"
| "collect_sentences (sentence # rest) st = collect_sentences rest (add_sentence sentence st)"

definition generate_sample_sentences :: "OpenAIGenerator \<Rightarrow> string \<Rightarrow> int \<Rightarrow> response \<Rightarrow> (error + ExampleSentence list) \<times> OpenAIGenerator" where
  "generate_sample_sentences self word nsentences r =
     (if status r \<noteq> 200 then (Inl (RuntimeError_response SampleSentences), self)
      else
        (let self' = self\<lparr>tokens := tokens self @ [total_tokens r]\<rparr>;
             sentences = map (\<lambda>c. str_strip c [CHR '' '', LF]) (choices r);
             examples = fst (collect_sentences sentences ([], {}))
         in (Inr (slice_to examples nsentences), self')))"

section \<open>anki\_language\_gpt.py\<close>





text \<open>
  The flash card \<open>runner\<close> builds from a search result for one output format: the word
  is the word of the result, and the result is passed through
  \<open>format_example_sentences\<close> first.
\<close>

definition make_flash_card :: "SearchResult \<Rightarrow> bool \<Rightarrow> OutputFormat \<Rightarrow> FlashCard" where
  "make_flash_card result use_rom fmt =
     \<lparr>FlashCard.foreign_lang_word = SearchResult.foreign_lang_word result,
      search_result = format_example_sentences result fmt,
      use_romanization = use_rom,
      output_format = fmt\<rparr>"

text \<open>
  \<open>main\<close>: the output groups are the zip of the files and the formats; every group is
  validated, in order, and only then is \<open>runner\<close> started. \<open>runner\<close> is the one part of
  \<open>main\<close> that talks to the remote model; it is a parameter here, acting on the
  state \<open>'net\<close> of everything sent so far.
\<close>

definition make_output_groups :: "string list \<Rightarrow> OutputFormat list \<Rightarrow> OutputGroup list" where
  "make_output_groups output_files output_formats =
     map (\<lambda>(file, fmt). \<lparr>output_file = file, OutputGroup.output_format = fmt\<rparr>)
         (zip output_files output_formats)"

fun validate_output_groups :: "OutputGroup list \<Rightarrow> error + unit" where
  "validate_output_groups [] = Inr ()"
| "validate_output_groups (output_group # rest) =
     (if OutputGroup.output_format output_group = EXCEL
         \<and> \<not> str_endswith (output_file output_group) ''.xlsx''
      then Inl (ValueError_extension (output_file output_group) ''.xlsx'')
      else if OutputGroup.output_format output_group \<in> {ANKI, SHEETS}
         \<and> \<not> str_endswith (output_file output_group) ''.csv''
      then Inl (ValueError_extension (output_file output_group) ''.csv'')
      else validate_output_groups rest)"

definition main ::
  "string list \<Rightarrow> OutputFormat list
     \<Rightarrow> (OutputGroup list \<Rightarrow> 'net \<Rightarrow> (error + unit) \<times> 'net) \<Rightarrow> 'net \<Rightarrow> (error + unit) \<times> 'net" where
  "main output_files output_formats runner net =
     (let output_groups = make_output_groups output_files output_formats
      in case validate_output_groups output_groups of
           Inl e \<Rightarrow> (Inl e, net)
         | Inr _ \<Rightarrow> runner output_groups net)"

section \<open>The properties, as the specification words them\<close>

text \<open>
  The elements of a list whose key does not occur among the earlier elements: the
  distinct elements in first-seen order, the first occurrence winning.
\<close>

definition first_by :: "('a \<Rightarrow> 'k) \<Rightarrow> 'a list \<Rightarrow> 'a list" where
  "first_by key xs =
     map (\<lambda>i. xs ! i) (filter (\<lambda>i. key (xs ! i) \<notin> key ` set (take i xs)) [0..<length xs])"

text \<open>
  The specification of \<open>fetch_romanization\<close>: surrounding whitespace and punctuation
  are stripped from the raw response.
\<close>

definition spec_romanization :: "string \<Rightarrow> string" where
  "spec_romanization content = str_strip content STRIP_CHARACTERS"


text \<open>
  The extension a file name must end in for its output format, and the groups that
  conform.
\<close>

definition required_extension :: "OutputFormat \<Rightarrow> string" where
  "required_extension fmt = (if fmt = EXCEL then ''.xlsx'' else ''.csv'')"

definition extension_ok :: "OutputGroup \<Rightarrow> bool" where
  "extension_ok g =
     str_endswith (output_file g) (required_extension (OutputGroup.output_format g))"



text \<open>
  A raw completion conforms when it splits into exactly two non-blank segments; the
  sentence it then contributes is the pair of the two. \<open>parse_completions\<close> is the
  sequence of the sentences the conforming completions contribute, in order.
\<close>

definition conforming :: "string \<Rightarrow> bool" where
  "conforming completion = (length (segments (str_strip completion [CHR '' '', LF])) = 2)"

definition parse_completion :: "string \<Rightarrow> ExampleSentence list" where
  "parse_completion completion =
     (case segments (str_strip completion [CHR '' '', LF]) of
        [f, e] \<Rightarrow> [\<lparr>foreign_lang = f, english = e\<rparr>]
      | _ \<Rightarrow> [])"

definition parse_completions :: "string list \<Rightarrow> ExampleSentence list" where
  "parse_completions completions = concat (map parse_completion completions)"

text \<open>
  The example of the specification, and the example-sentence cell as the specification
  describes it: for the tabular target the whole cell value has its quote characters
  doubled and is wrapped in quotes; for the rich-markup target the halves of a
  sentence are joined by the HTML line break, and the sentences by two of them.
\<close>

definition mesa :: SearchResult where
  "mesa = \<lparr>SearchResult.foreign_lang_word = ''mesa'', romanization = None,
            english_def = ''table'',
            example_sentences = [\<lparr>foreign_lang = ''la mesa es grande'',
                                   english = ''the table is big''\<rparr>],
            explanation = ''four legs''\<rparr>"

definition spec_tabular_cell :: "string \<Rightarrow> ExampleSentence list \<Rightarrow> string" where
  "spec_tabular_cell word sentences =
     [DQ] @ str_replace
              (str_join [LF, LF]
                 (map (\<lambda>s. str_replace (foreign_lang s) word (''**'' @ word @ ''**'')
                             @ [LF] @ english s) sentences))
              [DQ] [DQ, DQ]
          @ [DQ]"

definition spec_rich_markup_cell :: "string \<Rightarrow> ExampleSentence list \<Rightarrow> string" where
  "spec_rich_markup_cell word sentences =
     str_join (''<br>'' @ ''<br>'')
       (map (\<lambda>s. str_replace (foreign_lang s) word (''<b>**'' @ word @ ''**</b>'')
                   @ ''<br>'' @ english s) sentences)"

text \<open>A string with every quote character doubled.\<close>

definition double_quotes :: "string \<Rightarrow> string" where
  "double_quotes s = concat (map (\<lambda>c. if c = DQ then [DQ, DQ] else [c]) s)"

section \<open>Stripping\<close>

lemma strip_both_ends_decomp:
  "s = takeWhile P s @ rev (dropWhile P (rev (dropWhile P s)))
         @ rev (takeWhile P (rev (dropWhile P s)))"
proof -
  have "rev (dropWhile P s)
          = takeWhile P (rev (dropWhile P s)) @ dropWhile P (rev (dropWhile P s))"
    by simp
  then have "dropWhile P s
          = rev (dropWhile P (rev (dropWhile P s))) @ rev (takeWhile P (rev (dropWhile P s)))"
    by (metis rev_append rev_rev_ident)
  then show ?thesis
    by (metis takeWhile_dropWhile_id)
qed

lemma strip_both_ends_last:
  assumes "rev (dropWhile P (rev (dropWhile P s))) \<noteq> []"
  shows "\<not> P (last (rev (dropWhile P (rev (dropWhile P s)))))"
proof -
  from assms have ne: "dropWhile P (rev (dropWhile P s)) \<noteq> []" by simp
  then have "\<not> P (hd (dropWhile P (rev (dropWhile P s))))" by (rule hd_dropWhile)
  with ne show ?thesis by (simp add: last_rev)
qed

lemma strip_both_ends_hd:
  assumes "rev (dropWhile P (rev (dropWhile P s))) \<noteq> []"
  shows "\<not> P (hd (rev (dropWhile P (rev (dropWhile P s)))))"
proof -
  let ?d = "dropWhile P s"
  let ?t = "rev (dropWhile P (rev ?d))"
  have d: "?d = ?t @ rev (takeWhile P (rev ?d))"
    by (metis rev_append rev_rev_ident takeWhile_dropWhile_id)
  have "?d \<noteq> []"
  proof
    assume "?d = []"
    then have "?t = []" by (simp del: dropWhile_eq_Nil_conv)
    with assms show False by blast
  qed
  then have "\<not> P (hd ?d)" by (rule hd_dropWhile)
  moreover from d assms have "hd ?d = hd ?t" by (metis hd_append2)
  ultimately show ?thesis by simp
qed

lemma str_strip_decomp:
  "\<exists>a b. s = a @ str_strip s chars @ b \<and> set a \<subseteq> set chars \<and> set b \<subseteq> set chars"
proof -
  let ?P = "\<lambda>c. c \<in> set chars"
  let ?a = "takeWhile ?P s"
  let ?b = "rev (takeWhile ?P (rev (dropWhile ?P s)))"
  have "s = ?a @ str_strip s chars @ ?b"
    unfolding str_strip_def by (rule strip_both_ends_decomp)
  moreover have "set ?a \<subseteq> set chars" by (auto dest: set_takeWhileD)
  moreover have "set ?b \<subseteq> set chars" by (auto dest: set_takeWhileD)
  ultimately show ?thesis by blast
qed

lemma str_strip_ends:
  "str_strip s chars \<noteq> [] \<Longrightarrow>
     hd (str_strip s chars) \<notin> set chars \<and> last (str_strip s chars) \<notin> set chars"
  unfolding str_strip_def
  using strip_both_ends_hd [of "\<lambda>c. c \<in> set chars" s]
        strip_both_ends_last [of "\<lambda>c. c \<in> set chars" s]
  by blast

section \<open>The remote queries\<close>

text \<open>
  C7, as the code has it: on status 200, \<open>query_romanization\<close> returns the content of
  the first choice without its leading and trailing spaces and newlines, and nothing
  else is removed: the content is the result between a prefix and a suffix made of
  spaces and newlines only, and the result neither starts nor ends with one.
\<close>

theorem query_romanization_strips_spaces_newlines:
  assumes "status r = 200" and "choices r = content # rest"
  shows "\<exists>pinyin a b.
           fst (query_romanization self word r) = Inr pinyin
         \<and> pinyin = str_strip content [CHR '' '', LF]
         \<and> content = a @ pinyin @ b
         \<and> set a \<subseteq> {CHR '' '', LF} \<and> set b \<subseteq> {CHR '' '', LF}
         \<and> (pinyin \<noteq> [] \<longrightarrow> hd pinyin \<notin> {CHR '' '', LF} \<and> last pinyin \<notin> {CHR '' '', LF})"
proof -
  let ?p = "str_strip content [CHR '' '', LF]"
  have res: "fst (query_romanization self word r) = Inr ?p"
    using assms by (simp add: query_romanization_def first_choice_def)
  obtain a b where ab: "content = a @ ?p @ b"
      "set a \<subseteq> set [CHR '' '', LF]" "set b \<subseteq> set [CHR '' '', LF]"
    using str_strip_decomp [of content "[CHR '' '', LF]"] by blast
  have ends: "?p \<noteq> [] \<longrightarrow> hd ?p \<notin> set [CHR '' '', LF] \<and> last ?p \<notin> set [CHR '' '', LF]"
    using str_strip_ends [of content "[CHR '' '', LF]"] by blast
  from res ab ends show ?thesis by auto
qed

theorem query_romanization_strips_spaces_newlines_witness:
  "fst (query_romanization \<lparr>tokens = [], language = ''chinese''\<rparr> ''w''
          \<lparr>status = 200, total_tokens = 31, choices = ['' ni hao. \<newline>'']\<rparr>) = Inr ''ni hao.''"
  using query_romanization_strips_spaces_newlines
          [of "\<lparr>status = 200, total_tokens = 31, choices = ['' ni hao. \<newline>'']\<rparr>"
              "'' ni hao. \<newline>''" "[]" "\<lparr>tokens = [], language = ''chinese''\<rparr>" "''w''"]
  by (simp add: str_strip_def)

text \<open>
  C7 as the specification states it fails: the response \<open>" ni hao. \n"\<close> comes back as
  \<open>"ni hao."\<close>, full stop included, where stripping whitespace and punctuation gives
  \<open>"ni hao"\<close>.
\<close>

theorem query_romanization_punctuation_counterexample:
  "fst (query_romanization \<lparr>tokens = [], language = ''chinese''\<rparr> ''w''
          \<lparr>status = 200, total_tokens = 31, choices = ['' ni hao. \<newline>'']\<rparr>) = Inr ''ni hao.''
   \<and> spec_romanization '' ni hao. \<newline>'' = ''ni hao''
   \<and> fst (query_romanization \<lparr>tokens = [], language = ''chinese''\<rparr> ''w''
          \<lparr>status = 200, total_tokens = 31, choices = ['' ni hao. \<newline>'']\<rparr>)
       \<noteq> Inr (spec_romanization '' ni hao. \<newline>'')"
  by (simp add: query_romanization_def first_choice_def str_strip_def spec_romanization_def
        STRIP_CHARACTERS_def)




section \<open>Validation of the output groups\<close>

lemma validate_output_groups_find:
  "validate_output_groups gs =
     (case find (\<lambda>g. \<not> extension_ok g) gs of
        None \<Rightarrow> Inr ()
      | Some g \<Rightarrow> Inl (ValueError_extension (output_file g)
                        (required_extension (OutputGroup.output_format g))))"
proof (induction gs)
  case Nil
  show ?case by simp
next
  case (Cons g gs)
  show ?case
  proof (cases "OutputGroup.output_format g")
    case EXCEL
    with Cons show ?thesis by (simp add: extension_ok_def required_extension_def)
  next
    case ANKI
    with Cons show ?thesis by (simp add: extension_ok_def required_extension_def)
  next
    case SHEETS
    with Cons show ?thesis by (simp add: extension_ok_def required_extension_def)
  qed
qed

text \<open>
  C6: the validation raises for the first output group whose file name does not end
  in the extension of its format (\<open>.xlsx\<close> for Excel, \<open>.csv\<close> for Anki and Sheets),
  and for no other reason; \<open>main\<close> then returns that error with nothing sent to the
  remote model, and when every group conforms it goes on to \<open>runner\<close>.
\<close>

theorem extension_mismatch_raises_before_runner:
  "validate_output_groups gs =
     (case find (\<lambda>g. \<not> extension_ok g) gs of
        None \<Rightarrow> Inr ()
      | Some g \<Rightarrow> Inl (ValueError_extension (output_file g)
                        (required_extension (OutputGroup.output_format g))))
   \<and> main output_files output_formats runner net =
     (case find (\<lambda>g. \<not> extension_ok g) (make_output_groups output_files output_formats) of
        None \<Rightarrow> runner (make_output_groups output_files output_formats) net
      | Some g \<Rightarrow> (Inl (ValueError_extension (output_file g)
                          (required_extension (OutputGroup.output_format g))), net))"
  by (simp add: validate_output_groups_find main_def Let_def split: option.splits)

theorem extension_mismatch_raises_before_runner_witness:
  "main [''cards.csv'', ''cards.csv''] [ANKI, EXCEL] (\<lambda>gs n. (Inr (), Suc n)) (0::nat)
     = (Inl (ValueError_extension ''cards.csv'' ''.xlsx''), 0)
   \<and> main [''cards.csv'', ''cards.xlsx''] [SHEETS, EXCEL] (\<lambda>gs n. (Inr (), Suc n)) (0::nat)
     = (Inr (), 1)"
  using extension_mismatch_raises_before_runner
          [of "[]" "[''cards.csv'', ''cards.csv'']" "[ANKI, EXCEL]"
              "\<lambda>gs n. (Inr (), Suc n)" "0::nat"]
        extension_mismatch_raises_before_runner
          [of "[]" "[''cards.csv'', ''cards.xlsx'']" "[SHEETS, EXCEL]"
              "\<lambda>gs n. (Inr (), Suc n)" "0::nat"]
  by (simp add: make_output_groups_def extension_ok_def required_extension_def
        str_endswith_def)

text \<open>
  C10: the output groups are the files and the formats paired position by position up
  to the shorter of the two lists; the entries beyond it are dropped, and \<open>main\<close>
  behaves exactly as if they had never been given, so their number raises no error.
\<close>

theorem unequal_lengths_truncate_silently:
  "length (make_output_groups output_files output_formats)
     = min (length output_files) (length output_formats)
   \<and> map output_file (make_output_groups output_files output_formats)
     = take (length output_formats) output_files
   \<and> map OutputGroup.output_format (make_output_groups output_files output_formats)
     = take (length output_files) output_formats
   \<and> main output_files output_formats runner net
     = main (take (length output_formats) output_files)
            (take (length output_files) output_formats) runner net"
proof -
  have z: "zip (take (length output_formats) output_files)
               (take (length output_files) output_formats)
             = zip output_files output_formats"
    by (induction output_files output_formats rule: list_induct2') simp_all
  have fsts: "map output_file (make_output_groups output_files output_formats)
               = map fst (zip output_files output_formats)"
    by (simp add: make_output_groups_def case_prod_unfold)
  have snds: "map OutputGroup.output_format (make_output_groups output_files output_formats)
               = map snd (zip output_files output_formats)"
    by (simp add: make_output_groups_def case_prod_unfold)
  have same: "make_output_groups (take (length output_formats) output_files)
                 (take (length output_files) output_formats)
               = make_output_groups output_files output_formats"
    by (simp add: make_output_groups_def z)
  have f: "map fst (zip output_files output_formats)
             = take (length output_formats) output_files"
    by (induction output_files output_formats rule: list_induct2') simp_all
  have s: "map snd (zip output_files output_formats)
             = take (length output_files) output_formats"
    by (induction output_files output_formats rule: list_induct2') simp_all
  have len: "length (make_output_groups output_files output_formats)
               = min (length output_files) (length output_formats)"
    by (simp add: make_output_groups_def)
  show ?thesis
    by (simp add: len fsts snds f s main_def same)
qed

theorem unequal_lengths_truncate_silently_witness:
  "main [''a.csv'', ''b.docx'', ''c.txt''] [ANKI] (\<lambda>gs n. (Inr (), n + length gs)) (0::nat)
     = (Inr (), 1)"
  using unequal_lengths_truncate_silently
          [of "[''a.csv'', ''b.docx'', ''c.txt'']" "[ANKI]"
              "\<lambda>gs n. (Inr (), n + length gs)" "0::nat"]
  by (simp add: main_def make_output_groups_def str_endswith_def)

section \<open>The word check of the formatters\<close>

text \<open>
  C5: a flash card whose word differs from the word of its search result is never
  formatted: \<open>to_df_row\<close> raises and \<open>write_csv_list\<close> raises and leaves the writer
  without a new row. The error is the word mismatch whenever the method is the one
  serving the card's format (the only way \<open>runner\<close> calls them); on the other method
  the guard on the format, which comes first, raises its own \<open>RuntimeError\<close>. When the
  words are equal no mismatch is ever raised, and the method serving the format
  produces its row.
\<close>

theorem word_mismatch_raises:
  "(FlashCard.foreign_lang_word self \<noteq> SearchResult.foreign_lang_word (search_result self) \<longrightarrow>
      (\<exists>e. to_df_row self = Inl e)
    \<and> (\<exists>e. write_csv_list self writer = (Inl e, writer))
    \<and> (FlashCard.output_format self = EXCEL \<longrightarrow>
          to_df_row self = Inl (RuntimeError_word_mismatch (FlashCard.foreign_lang_word self)
                                  (SearchResult.foreign_lang_word (search_result self))))
    \<and> (FlashCard.output_format self \<in> {SHEETS, ANKI} \<longrightarrow>
          write_csv_list self writer
            = (Inl (RuntimeError_word_mismatch (FlashCard.foreign_lang_word self)
                      (SearchResult.foreign_lang_word (search_result self))), writer)))
   \<and> (FlashCard.foreign_lang_word self = SearchResult.foreign_lang_word (search_result self) \<longrightarrow>
      (\<forall>a b. to_df_row self \<noteq> Inl (RuntimeError_word_mismatch a b))
    \<and> (\<forall>a b. fst (write_csv_list self writer) \<noteq> Inl (RuntimeError_word_mismatch a b))
    \<and> (FlashCard.output_format self = EXCEL \<longrightarrow> (\<exists>row. to_df_row self = Inr row))
    \<and> (FlashCard.output_format self \<in> {SHEETS, ANKI} \<longrightarrow>
          (\<exists>row. write_csv_list self writer = (Inr (), writer @ [row]))))"
  by (simp add: to_df_row_def write_csv_list_def Let_def)

theorem word_mismatch_raises_witness:
  "write_csv_list
       \<lparr>FlashCard.foreign_lang_word = ''silla'',
          search_result = \<lparr>SearchResult.foreign_lang_word = ''mesa'', romanization = None,
            english_def = ''table'', example_sentences = [], explanation = ''four legs''\<rparr>,
          use_romanization = False, output_format = ANKI\<rparr> [[Some ''earlier row'']]
     = (Inl (RuntimeError_word_mismatch ''silla'' ''mesa''), [[Some ''earlier row'']])
   \<and> to_df_row
       \<lparr>FlashCard.foreign_lang_word = ''silla'',
          search_result = \<lparr>SearchResult.foreign_lang_word = ''mesa'', romanization = None,
            english_def = ''table'', example_sentences = [], explanation = ''four legs''\<rparr>,
          use_romanization = False, output_format = EXCEL\<rparr>
     = Inl (RuntimeError_word_mismatch ''silla'' ''mesa'')
   \<and> fst (write_csv_list
       \<lparr>FlashCard.foreign_lang_word = ''mesa'',
          search_result = \<lparr>SearchResult.foreign_lang_word = ''mesa'', romanization = None,
            english_def = ''table'', example_sentences = [], explanation = ''four legs''\<rparr>,
          use_romanization = False, output_format = ANKI\<rparr> [[Some ''earlier row'']])
     = Inr ()"
  using word_mismatch_raises
          [of "\<lparr>FlashCard.foreign_lang_word = ''silla'',
                 search_result = \<lparr>SearchResult.foreign_lang_word = ''mesa'', romanization = None,
                   english_def = ''table'', example_sentences = [], explanation = ''four legs''\<rparr>,
                 use_romanization = False, output_format = ANKI\<rparr>" "[[Some ''earlier row'']]"]
        word_mismatch_raises
          [of "\<lparr>FlashCard.foreign_lang_word = ''silla'',
                 search_result = \<lparr>SearchResult.foreign_lang_word = ''mesa'', romanization = None,
                   english_def = ''table'', example_sentences = [], explanation = ''four legs''\<rparr>,
                 use_romanization = False, output_format = EXCEL\<rparr>" "[]"]
        word_mismatch_raises
          [of "\<lparr>FlashCard.foreign_lang_word = ''mesa'',
                 search_result = \<lparr>SearchResult.foreign_lang_word = ''mesa'', romanization = None,
                   english_def = ''table'', example_sentences = [], explanation = ''four legs''\<rparr>,
                 use_romanization = False, output_format = ANKI\<rparr>" "[[Some ''earlier row'']]"]
  by auto

section \<open>First occurrences\<close>

lemma index_filter_snoc:
  "map (\<lambda>i. (xs @ [x]) ! i)
       (filter (\<lambda>i. Q ((xs @ [x]) ! i) (take i (xs @ [x]))) [0..<length (xs @ [x])])
   = map (\<lambda>i. xs ! i) (filter (\<lambda>i. Q (xs ! i) (take i xs)) [0..<length xs])
     @ (if Q x xs then [x] else [])"
proof -
  define F where "F = (\<lambda>i. (xs @ [x]) ! i)"
  define P' where "P' = (\<lambda>i. Q ((xs @ [x]) ! i) (take i (xs @ [x])))"
  define G where "G = (\<lambda>i. Q (xs ! i) (take i xs))"
  have s1: "[0..<length (xs @ [x])] = [0..<length xs] @ [length xs]" by simp
  have a: "filter P' [0..<length xs] = filter G [0..<length xs]"
    by (rule filter_cong) (simp_all add: P'_def G_def nth_append)
  have b: "map F (filter G [0..<length xs]) = map (\<lambda>i. xs ! i) (filter G [0..<length xs])"
    by (rule map_cong) (simp_all add: F_def nth_append)
  have c: "P' (length xs) = Q x xs" by (simp add: P'_def)
  have d: "F (length xs) = x" by (simp add: F_def)
  have "map F (filter P' [0..<length (xs @ [x])])
          = map (\<lambda>i. xs ! i) (filter G [0..<length xs]) @ (if Q x xs then [x] else [])"
    unfolding s1 by (simp add: a b c d)
  then show ?thesis unfolding F_def P'_def G_def .
qed

lemma first_by_Nil: "first_by key [] = []"
  by (simp add: first_by_def)

lemma first_by_snoc:
  "first_by key (xs @ [x]) = first_by key xs @ (if key x \<in> key ` set xs then [] else [x])"
  unfolding first_by_def
  using index_filter_snoc [of xs x "\<lambda>y ys. key y \<notin> key ` set ys"] by simp



lemma first_by_keys: "key ` set (first_by key xs) = key ` set xs"
  by (induction xs rule: rev_induct) (auto simp: first_by_Nil first_by_snoc)

lemma first_by_subset: "set (first_by key xs) \<subseteq> set xs"
  by (induction xs rule: rev_induct) (auto simp: first_by_Nil first_by_snoc)

lemma first_by_distinct: "distinct (map key (first_by key xs))"
proof (induction xs rule: rev_induct)
  case Nil
  show ?case by (simp add: first_by_Nil)
next
  case (snoc x xs)
  have "key x \<notin> key ` set xs \<Longrightarrow> key x \<notin> key ` set (first_by key xs)"
    by (simp add: first_by_keys)
  with snoc show ?case by (simp add: first_by_snoc)
qed

section \<open>The words read from the input file\<close>





section \<open>The example sentences\<close>

lemma collect_sentences_append:
  "collect_sentences (a @ b) st = collect_sentences b (collect_sentences a st)"
  by (induction a arbitrary: st) simp_all

lemma parse_completion_cases:
  "parse_completion c = [] \<or> (\<exists>f e. segments (str_strip c [CHR '' '', LF]) = [f, e]
      \<and> parse_completion c = [\<lparr>foreign_lang = f, english = e\<rparr>])"
  by (simp add: parse_completion_def split: list.splits)

lemma collect_sentences_invariant:
  "collect_sentences (map (\<lambda>c. str_strip c [CHR '' '', LF]) cs) ([], {})
     = (first_by foreign_lang (parse_completions cs),
        foreign_lang ` set (parse_completions cs))"
proof (induction cs rule: rev_induct)
  case Nil
  show ?case by (simp add: parse_completions_def first_by_Nil)
next
  case (snoc c cs)
  have p: "parse_completions (cs @ [c]) = parse_completions cs @ parse_completion c"
    by (simp add: parse_completions_def)
  show ?case
  proof (cases "segments (str_strip c [CHR '' '', LF])")
    case Nil
    then show ?thesis
      using snoc by (simp add: collect_sentences_append p parse_completion_def add_sentence_def)
  next
    case (Cons f r1)
    show ?thesis
    proof (cases r1)
      case Nil
      with Cons show ?thesis
        using snoc by (simp add: collect_sentences_append p parse_completion_def add_sentence_def)
    next
      case (Cons e r2)
      note r1 = this
      show ?thesis
      proof (cases r2)
        case Nil
        with r1 \<open>segments (str_strip c [CHR '' '', LF]) = f # r1\<close> show ?thesis
          using snoc first_by_snoc [of foreign_lang "parse_completions cs" "\<lparr>foreign_lang = f, english = e\<rparr>"]
          by (simp add: collect_sentences_append p parse_completion_def add_sentence_def insert_absorb)
      next
        case (Cons x r3)
        with r1 \<open>segments (str_strip c [CHR '' '', LF]) = f # r1\<close> show ?thesis
          using snoc by (simp add: collect_sentences_append p parse_completion_def add_sentence_def)
      qed
    qed
  qed
qed

lemma parse_completions_conforming:
  "parse_completions (filter conforming cs) = parse_completions cs"
  by (induction cs)
     (auto simp: parse_completions_def parse_completion_def conforming_def split: list.splits)

text \<open>
  C3: on status 200 and for a requested count \<open>n \<ge> 0\<close>, \<open>generate_sample_sentences\<close>
  returns a list (fewer than \<open>n\<close> sentences is no error) of at most \<open>n\<close> sentences
  with pairwise different foreign-language halves: the first \<open>n\<close> of the sentences of
  the conforming completions, the first occurrence of each foreign-language half kept.
  A completion that does not conform contributes nothing: the result is the same
  without it. \<open>"  \n\n"\<close> and \<open>"only one line"\<close> do not conform.
\<close>

theorem sample_sentences_bounded_distinct_conforming:
  assumes "status r = 200" and "0 \<le> n"
  shows "\<exists>ss. fst (generate_sample_sentences self word n r) = Inr ss
           \<and> int (length ss) \<le> n
           \<and> distinct (map foreign_lang ss)
           \<and> ss = take (nat n) (first_by foreign_lang (parse_completions (choices r)))
           \<and> fst (generate_sample_sentences self word n
                     (r\<lparr>choices := filter conforming (choices r)\<rparr>)) = Inr ss
           \<and> \<not> conforming [CHR '' '', CHR '' '', LF, LF]
           \<and> \<not> conforming ''only one line''"
proof -
  let ?all = "first_by foreign_lang (parse_completions (choices r))"
  let ?ss = "take (nat n) ?all"
  have res: "fst (generate_sample_sentences self word n r) = Inr ?ss"
    using assms
    by (simp add: generate_sample_sentences_def Let_def slice_to_def collect_sentences_invariant)
  have res': "fst (generate_sample_sentences self word n
                     (r\<lparr>choices := filter conforming (choices r)\<rparr>)) = Inr ?ss"
    using assms
    by (simp add: generate_sample_sentences_def Let_def slice_to_def collect_sentences_invariant
          parse_completions_conforming)
  have len: "int (length ?ss) \<le> n" using assms by simp
  have "distinct (map foreign_lang ?all)" by (rule first_by_distinct)
  then have dist: "distinct (map foreign_lang ?ss)"
    by (simp add: take_map [symmetric] distinct_take del: take_map)
  have b1: "\<not> conforming [CHR '' '', CHR '' '', LF, LF]"
    by (simp add: conforming_def segments_def str_strip_def str_strip_ws_def isspace_def)
  have b2: "\<not> conforming ''only one line''"
    by (simp add: conforming_def segments_def str_strip_def str_strip_ws_def isspace_def)
  from res res' len dist b1 b2 show ?thesis by blast
qed

theorem sample_sentences_witness:
  "\<exists>ss. fst (generate_sample_sentences \<lparr>tokens = [], language = ''spanish''\<rparr> ''mesa'' 2
         \<lparr>status = 200, total_tokens = 40,
            choices = [''la mesa\<newline>the table'', ''  \<newline>\<newline>'', ''la mesa \<newline> a table'',
                       ''only one line'', ''una mesa\<newline>\<newline>one table\<newline>'', ''mi mesa\<newline>my table'']\<rparr>)
          = Inr ss
      \<and> ss = [\<lparr>foreign_lang = ''la mesa'', english = ''the table''\<rparr>,
               \<lparr>foreign_lang = ''una mesa'', english = ''one table''\<rparr>]
      \<and> int (length ss) \<le> 2 \<and> distinct (map foreign_lang ss)"
proof -
  let ?g = "\<lparr>tokens = [], language = ''spanish''\<rparr>"
  let ?r = "\<lparr>status = 200, total_tokens = 40,
            choices = [''la mesa\<newline>the table'', ''  \<newline>\<newline>'', ''la mesa \<newline> a table'',
                       ''only one line'', ''una mesa\<newline>\<newline>one table\<newline>'', ''mi mesa\<newline>my table'']\<rparr>"
  have h1: "status ?r = 200" by simp
  have h2: "(0::int) \<le> 2" by simp
  obtain ss where a: "fst (generate_sample_sentences ?g ''mesa'' 2 ?r) = Inr ss"
      and b: "int (length ss) \<le> 2" and c: "distinct (map foreign_lang ss)"
    using sample_sentences_bounded_distinct_conforming [OF h1 h2, of ?g "''mesa''"] by blast
  have v: "fst (generate_sample_sentences ?g ''mesa'' 2 ?r)
             = Inr [\<lparr>foreign_lang = ''la mesa'', english = ''the table''\<rparr>,
                    \<lparr>foreign_lang = ''una mesa'', english = ''one table''\<rparr>]"
    by (simp add: generate_sample_sentences_def add_sentence_def segments_def str_strip_def
          str_strip_ws_def isspace_def slice_to_def)
  from a v have "ss = [\<lparr>foreign_lang = ''la mesa'', english = ''the table''\<rparr>,
                    \<lparr>foreign_lang = ''una mesa'', english = ''one table''\<rparr>]" by simp
  with a b c show ?thesis by blast
qed

section \<open>Replacing\<close>

lemma replace_scan_no_occurrence:
  assumes "\<forall>i<length s. \<not> str_startswith (drop i s) old"
  shows "replace_scan s old new = s"
  using assms
proof (induction s)
  case Nil
  show ?case by simp
next
  case (Cons c cs)
  from Cons.prems have here: "\<not> str_startswith (c # cs) old" by force
  have "\<forall>i<length cs. \<not> str_startswith (drop i cs) old"
  proof (intro allI impI)
    fix i assume "i < length cs"
    then have "Suc i < length (c # cs)" by simp
    with Cons.prems have "\<not> str_startswith (drop (Suc i) (c # cs)) old" by blast
    then show "\<not> str_startswith (drop i cs) old" by simp
  qed
  with Cons.IH have "replace_scan cs old new = cs" by blast
  with here show ?case by simp
qed

lemma replace_scan_first_occurrence:
  assumes "old \<noteq> []"
    and "\<forall>i<length a. \<not> str_startswith (drop i (a @ old @ b)) old"
  shows "replace_scan (a @ old @ b) old new = a @ new @ replace_scan b old new"
  using assms(2)
proof (induction a)
  case Nil
  from assms(1) obtain c o' where old: "old = c # o'" by (cases old) auto
  have "str_startswith (old @ b) old" by (simp add: str_startswith_def)
  moreover have "old @ b = c # (o' @ b)" by (simp add: old)
  ultimately have "replace_scan (old @ b) old new
                     = new @ replace_scan (drop (length old) (old @ b)) old new"
    using assms(1) by (metis replace_scan.simps(2))
  then show ?case by simp
next
  case (Cons c a)
  from Cons.prems have here: "\<not> str_startswith ((c # a) @ old @ b) old" by force
  have "\<forall>i<length a. \<not> str_startswith (drop i (a @ old @ b)) old"
  proof (intro allI impI)
    fix i assume "i < length a"
    then have "Suc i < length (c # a)" by simp
    with Cons.prems have "\<not> str_startswith (drop (Suc i) ((c # a) @ old @ b)) old" by blast
    then show "\<not> str_startswith (drop i (a @ old @ b)) old" by simp
  qed
  with Cons.IH have "replace_scan (a @ old @ b) old new = a @ new @ replace_scan b old new"
    by blast
  with here show ?case by simp
qed

lemma replace_scan_single:
  "replace_scan s [c] new = concat (map (\<lambda>x. if x = c then new else [x]) s)"
  by (induction s) (simp_all add: str_startswith_def)

lemma str_replace_single:
  "str_replace s [c] new = concat (map (\<lambda>x. if x = c then new else [x]) s)"
  by (simp add: str_replace_def replace_scan_single)


section \<open>The example-sentence cell\<close>

text \<open>
  C1, as the code has it: for the tabular (Excel) target the row holds the word, the
  romanization when asked for, the translation, the example sentences and the
  explanation. In the example-sentence cell, the foreign-language half of every
  sentence has the word replaced by \<open>**word**\<close>, then every quote character
  doubled, and is wrapped in one pair of quotes; the English half follows after
  \<open>\n\<close> as it is, outside the quotes; the sentences are joined with \<open>\n\n\<close>.
\<close>

theorem excel_cell_quotes_foreign_half:
  "to_df_row (make_flash_card result use_rom EXCEL)
     = Inr ([(''Word'', Some (SearchResult.foreign_lang_word result))]
            @ (if use_rom then [(''Romanization'', romanization result)] else [])
            @ [(''Translation'', Some (english_def result)),
               (''Example Sentences'',
                  Some (str_join [LF, LF]
                    (map (\<lambda>s. [DQ]
                               @ double_quotes
                                   (str_replace (foreign_lang s)
                                      (SearchResult.foreign_lang_word result)
                                      (''**'' @ SearchResult.foreign_lang_word result @ ''**''))
                               @ [DQ] @ [LF] @ english s)
                         (example_sentences result)))),
               (''Explanation'', Some (explanation result))])"
  by (simp add: to_df_row_def make_flash_card_def format_example_sentences_def
        format_sentence_def sentence_lines_def Let_def str_replace_single double_quotes_def
        comp_def)

text \<open>The example of the specification: the cell is \<open>"la **mesa** es grande"\nthe table is big\<close>.\<close>

theorem excel_cell_quotes_foreign_half_witness:
  "to_df_row (make_flash_card mesa False EXCEL)
     = Inr [(''Word'', Some ''mesa''), (''Translation'', Some ''table''),
            (''Example Sentences'',
               Some ([DQ] @ ''la **mesa** es grande'' @ [DQ] @ ''\<newline>the table is big'')),
            (''Explanation'', Some ''four legs'')]"
proof -
  have r: "str_replace ''la mesa es grande'' ''mesa'' ''**mesa**'' = ''la **mesa** es grande''"
    by (simp add: str_replace_def str_startswith_def)
  show ?thesis
    using excel_cell_quotes_foreign_half [of mesa False]
    by (simp add: mesa_def r double_quotes_def)
qed

text \<open>
  C1 as the specification states it fails on its own example: the quotes close after
  the foreign-language half, before the line break, and the cell does not end in a
  quote, where the whole value wrapped in quotes would.
\<close>

theorem excel_whole_cell_counterexample:
  "to_df_row (make_flash_card mesa False EXCEL)
     = Inr [(''Word'', Some ''mesa''), (''Translation'', Some ''table''),
            (''Example Sentences'',
               Some ([DQ] @ ''la **mesa** es grande'' @ [DQ] @ ''\<newline>the table is big'')),
            (''Explanation'', Some ''four legs'')]
   \<and> spec_tabular_cell ''mesa'' (example_sentences mesa)
     = [DQ] @ ''la **mesa** es grande\<newline>the table is big'' @ [DQ]
   \<and> [DQ] @ ''la **mesa** es grande'' @ [DQ] @ ''\<newline>the table is big''
     \<noteq> spec_tabular_cell ''mesa'' (example_sentences mesa)"
proof -
  have r: "str_replace ''la mesa es grande'' ''mesa'' ''**mesa**'' = ''la **mesa** es grande''"
    by (simp add: str_replace_def str_startswith_def)
  have c: "to_df_row (make_flash_card mesa False EXCEL)
     = Inr [(''Word'', Some ''mesa''), (''Translation'', Some ''table''),
            (''Example Sentences'',
               Some ([DQ] @ ''la **mesa** es grande'' @ [DQ] @ ''\<newline>the table is big'')),
            (''Explanation'', Some ''four legs'')]"
    by (simp add: to_df_row_def make_flash_card_def format_example_sentences_def
          format_sentence_def sentence_lines_def mesa_def r str_replace_single)
  have s: "spec_tabular_cell ''mesa'' (example_sentences mesa)
     = [DQ] @ ''la **mesa** es grande\<newline>the table is big'' @ [DQ]"
    by (simp add: spec_tabular_cell_def mesa_def r str_replace_single)
  from c s show ?thesis by simp
qed

text \<open>
  C2, as the code has it: for the rich-markup (Anki) target the row written holds the
  word, the romanization when asked for, the translation, the example sentences and
  the explanation. In the example-sentence cell, the foreign-language half of every
  sentence has the word replaced by \<open><b>**word**</b>\<close>, the two halves are joined by
  \<open>\n<br>\<close> (a newline, then the HTML line break) and the sentences by two of these
  tokens. The replacement scans from the left: where the first occurrence of the word
  starts, the wrapped word is written and the scan goes on after that occurrence; a
  text in which the word does not occur is left as it is.
\<close>

theorem anki_cell_bold_and_br:
  "write_csv_list (make_flash_card result use_rom ANKI) writer
     = (Inr (),
        writer @ [[Some (SearchResult.foreign_lang_word result)]
                  @ (if use_rom then [romanization result] else [])
                  @ [Some (english_def result),
                     Some (str_join (''\<newline><br>'' @ ''\<newline><br>'')
                       (map (\<lambda>s. str_replace (foreign_lang s)
                                    (SearchResult.foreign_lang_word result)
                                    (''<b>**'' @ SearchResult.foreign_lang_word result @ ''**</b>'')
                                  @ ''\<newline><br>'' @ english s)
                            (example_sentences result))),
                     Some (explanation result)]])
   \<and> (word \<noteq> [] \<and> (\<forall>i<length a. \<not> str_startswith (drop i (a @ word @ b)) word) \<longrightarrow>
        str_replace (a @ word @ b) word bold = a @ bold @ str_replace b word bold)
   \<and> (word \<noteq> [] \<and> (\<forall>i<length t. \<not> str_startswith (drop i t) word) \<longrightarrow>
        str_replace t word bold = t)"
proof -
  have row: "write_csv_list (make_flash_card result use_rom ANKI) writer
     = (Inr (),
        writer @ [[Some (SearchResult.foreign_lang_word result)]
                  @ (if use_rom then [romanization result] else [])
                  @ [Some (english_def result),
                     Some (str_join (''\<newline><br>'' @ ''\<newline><br>'')
                       (map (\<lambda>s. str_replace (foreign_lang s)
                                    (SearchResult.foreign_lang_word result)
                                    (''<b>**'' @ SearchResult.foreign_lang_word result @ ''**</b>'')
                                  @ ''\<newline><br>'' @ english s)
                            (example_sentences result))),
                     Some (explanation result)]])"
    by (simp add: write_csv_list_def make_flash_card_def format_example_sentences_def
          format_sentence_def sentence_lines_def Let_def comp_def)
  have first: "word \<noteq> [] \<and> (\<forall>i<length a. \<not> str_startswith (drop i (a @ word @ b)) word) \<longrightarrow>
        str_replace (a @ word @ b) word bold = a @ bold @ str_replace b word bold"
    by (simp add: str_replace_def replace_scan_first_occurrence)
  have none: "word \<noteq> [] \<and> (\<forall>i<length t. \<not> str_startswith (drop i t) word) \<longrightarrow>
        str_replace t word bold = t"
    by (simp add: str_replace_def replace_scan_no_occurrence)
  from row first none show ?thesis by blast
qed

theorem anki_cell_bold_and_br_witness:
  "write_csv_list (make_flash_card mesa False ANKI) []
     = (Inr (), [[Some ''mesa'', Some ''table'',
                  Some ''la <b>**mesa**</b> es grande\<newline><br>the table is big'',
                  Some ''four legs'']])"
proof -
  have n: "\<forall>i<length ''la ''. \<not> str_startswith (drop i (''la '' @ ''mesa'' @ '' es grande'')) ''mesa''"
    by (simp add: str_startswith_def less_Suc_eq)
  have m: "\<forall>i<length '' es grande''. \<not> str_startswith (drop i '' es grande'') ''mesa''"
    by (simp add: str_startswith_def less_Suc_eq)
  have r1: "str_replace (''la '' @ ''mesa'' @ '' es grande'') ''mesa'' ''<b>**mesa**</b>''
             = ''la '' @ ''<b>**mesa**</b>'' @ str_replace '' es grande'' ''mesa'' ''<b>**mesa**</b>''"
    using anki_cell_bold_and_br [of mesa False "[]" "''mesa''" "''la ''" "'' es grande''" "''<b>**mesa**</b>''"] n
    by blast
  have r2: "str_replace '' es grande'' ''mesa'' ''<b>**mesa**</b>'' = '' es grande''"
    using anki_cell_bold_and_br [of mesa False "[]" "''mesa''" "[]" "[]" "''<b>**mesa**</b>''" "'' es grande''"] m
    by blast
  have r: "str_replace ''la mesa es grande'' ''mesa'' ''<b>**mesa**</b>''
             = ''la <b>**mesa**</b> es grande''"
    using r1 r2 by simp
  show ?thesis
    using anki_cell_bold_and_br [of mesa False "[]", THEN conjunct1]
    by (simp add: mesa_def r)
qed

text \<open>
  C2 as the specification states it fails on the example: the cell written keeps the
  newline before every \<open><br>\<close>, where the HTML line break instead of \<open>\n\<close> would give
  \<open>la <b>**mesa**</b> es grande<br>the table is big\<close>.
\<close>

theorem anki_plain_br_counterexample:
  "write_csv_list (make_flash_card mesa False ANKI) []
     = (Inr (), [[Some ''mesa'', Some ''table'',
                  Some ''la <b>**mesa**</b> es grande\<newline><br>the table is big'',
                  Some ''four legs'']])
   \<and> spec_rich_markup_cell ''mesa'' (example_sentences mesa)
     = ''la <b>**mesa**</b> es grande<br>the table is big''
   \<and> ''la <b>**mesa**</b> es grande\<newline><br>the table is big''
     \<noteq> spec_rich_markup_cell ''mesa'' (example_sentences mesa)"
proof -
  have r: "str_replace ''la mesa es grande'' ''mesa'' ''<b>**mesa**</b>''
             = ''la <b>**mesa**</b> es grande''"
    by (simp add: str_replace_def str_startswith_def)
  have c: "write_csv_list (make_flash_card mesa False ANKI) []
     = (Inr (), [[Some ''mesa'', Some ''table'',
                  Some ''la <b>**mesa**</b> es grande\<newline><br>the table is big'',
                  Some ''four legs'']])"
    by (simp add: write_csv_list_def make_flash_card_def format_example_sentences_def
          format_sentence_def sentence_lines_def mesa_def r)
  have s: "spec_rich_markup_cell ''mesa'' (example_sentences mesa)
     = ''la <b>**mesa**</b> es grande<br>the table is big''"
    by (simp add: spec_rich_markup_cell_def mesa_def r)
  from c s show ?thesis by simp
qed

end
